theory Spec2Isabelle
  imports Complex_Main
begin

section \<open>Data model (lib/tauri/types.ts)\<close>

text \<open>
  \<open>ServiceType\<close> is a union of string literals. \<open>ServiceStatus\<close> is one too, but the
  real-time handler stores the event's \<open>new_status: string\<close> through an unchecked cast
  (\<open>as Service["status"]\<close>), so the status field holds whatever string the event carries:
  it is a \<open>string\<close> here. JavaScript numbers that are ports, pids, byte counts and
  timestamps are natural numbers; percentages are reals (they are only stored and copied).
\<close>

datatype ServiceType = Docker | Systemd | Launchd | WindowsService | Process

record Service =
  id_svc :: string
  name :: string
  status :: string
  service_type :: ServiceType
  ports :: "nat list"
  pid :: "nat option"
  path :: "string option"
  description :: "string option"
  auto_start :: bool
  cpu_usage :: "real option"
  memory_bytes :: "nat option"
  memory_percent :: "real option"

section \<open>The service store (stores/serviceStore.ts)\<close>

record ServiceState =
  services :: "Service list"
  selectedService :: "Service option"
  isLoading :: bool
  error :: "string option"
  autoRefreshInterval :: "nat option"
  refreshIntervalMs :: nat

definition useServiceStore_initial :: ServiceState where
  "useServiceStore_initial =
     \<lparr>services = [], selectedService = None, isLoading = False, error = None,
      autoRefreshInterval = None, refreshIntervalMs = 3000\<rparr>"

section \<open>Real-time events (lib/hooks/useRealtime.ts)\<close>

text \<open>
  The tagged union \<open>ServiceEvent\<close>. \<open>ServiceStatusChanged\<close> carries \<open>service_id\<close>,
  \<open>old_status\<close> and \<open>new_status\<close>; \<open>ServicePortsChanged\<close> carries \<open>service_id\<close> and
  \<open>ports\<close>.
\<close>

datatype ServiceEvent =
    ServicesDiscovered "Service list"
  | ServiceStatusChanged string string string
  | ServiceAdded Service
  | ServiceRemoved string
  | ServicePortsChanged string "nat list"

text \<open>
  Besides updating the service store, the \<open>ServicePortsChanged\<close> branch asks the port
  store to refresh (\<open>portStore.fetchPortUsage()\<close>); the handler returns the requests it
  made beside the new store state.
\<close>

datatype effect = FetchPortUsage

fun handleServiceEvent :: "ServiceEvent \<Rightarrow> ServiceState \<Rightarrow> ServiceState \<times> effect list" where
  "handleServiceEvent (ServicesDiscovered payload) state =
     (state\<lparr>services := payload, isLoading := False\<rparr>, [])"
| "handleServiceEvent (ServiceStatusChanged service_id old_status new_status) state =
     (state\<lparr>services :=
        map (\<lambda>service. if id_svc service = service_id
                         then service\<lparr>status := new_status\<rparr> else service)
            (services state)\<rparr>, [])"
| "handleServiceEvent (ServiceAdded payload) state =
     (state\<lparr>services := services state @ [payload]\<rparr>, [])"
| "handleServiceEvent (ServiceRemoved service_id) state =
     (state\<lparr>services := filter (\<lambda>service. id_svc service \<noteq> service_id) (services state),
            selectedService :=
              (case selectedService state of
                 None \<Rightarrow> None
               | Some sel \<Rightarrow> if id_svc sel = service_id then None else Some sel)\<rparr>, [])"
| "handleServiceEvent (ServicePortsChanged service_id new_ports) state =
     (state\<lparr>services :=
        map (\<lambda>service. if id_svc service = service_id
                         then service\<lparr>ports := new_ports\<rparr> else service)
            (services state)\<rparr>, [FetchPortUsage])"

definition apply_event :: "ServiceState \<Rightarrow> ServiceEvent \<Rightarrow> ServiceState" where
  "apply_event state event = fst (handleServiceEvent event state)"

text \<open>Events are delivered to the listener one after the other.\<close>

definition apply_events :: "ServiceState \<Rightarrow> ServiceEvent list \<Rightarrow> ServiceState" where
  "apply_events state events = foldl apply_event state events"

definition service_ids :: "ServiceState \<Rightarrow> string list" where
  "service_ids state = map id_svc (services state)"

text \<open>
  What the handler relies on from the emitter: a full list carries each id once, and an
  addition carries an id the store does not hold yet.
\<close>

fun event_respects_ids :: "ServiceState \<Rightarrow> ServiceEvent \<Rightarrow> bool" where
  "event_respects_ids state (ServicesDiscovered payload) = distinct (map id_svc payload)"
| "event_respects_ids state (ServiceAdded payload) = (id_svc payload \<notin> set (service_ids state))"
| "event_respects_ids state _ = True"

section \<open>Store actions against the backend (stores/serviceStore.ts)\<close>

text \<open>
  Asynchronous store actions are modelled as run to completion against one backend: the
  backend's answers are an environment, a rejected promise is \<open>Inl\<close>, and each action
  returns what its caller receives, the new store state and the backend commands it
  issued, in order.
\<close>

datatype api_error =
  SourceUnavailable | PartialRead | NotFound | PermissionDenied | ExhaustedRange | Timeout

text \<open>\<open>String(error)\<close>: the text the store keeps for a rejected command.\<close>

fun String_of_error :: "api_error \<Rightarrow> string" where
  "String_of_error SourceUnavailable = ''SourceUnavailable''"
| "String_of_error PartialRead = ''PartialRead''"
| "String_of_error NotFound = ''NotFound''"
| "String_of_error PermissionDenied = ''PermissionDenied''"
| "String_of_error ExhaustedRange = ''ExhaustedRange''"
| "String_of_error Timeout = ''Timeout''"

datatype api_call =
    DiscoverServices
  | StartService string
  | StopService string
  | RestartService string
  | KillProcess nat
  | EnableServiceAutostart string ServiceType
  | DisableServiceAutostart string ServiceType

record Backend =
  discoverServices :: "api_error + Service list"
  startService_api :: "string \<Rightarrow> api_error + unit"
  stopService_api :: "string \<Rightarrow> api_error + unit"
  restartService_api :: "string \<Rightarrow> api_error + unit"
  killProcess :: "nat \<Rightarrow> api_error + unit"
  enableServiceAutostart :: "string \<Rightarrow> ServiceType \<Rightarrow> api_error + unit"
  disableServiceAutostart :: "string \<Rightarrow> ServiceType \<Rightarrow> api_error + unit"

definition fetchServices :: "Backend \<Rightarrow> ServiceState \<Rightarrow> ServiceState \<times> api_call list" where
  "fetchServices api state =
     (let isAutoRefresh = (autoRefreshInterval state \<noteq> None);
          state1 = (if \<not> isAutoRefresh then state\<lparr>isLoading := True, error := None\<rparr> else state)
      in case discoverServices api of
           Inr svcs \<Rightarrow> (state1\<lparr>services := svcs, isLoading := False\<rparr>, [DiscoverServices])
         | Inl e \<Rightarrow> (state1\<lparr>error := Some (String_of_error e), isLoading := False\<rparr>,
                      [DiscoverServices]))"

text \<open>
  \<open>startService\<close>, \<open>stopService\<close> and \<open>restartService\<close> share one shape: issue the
  command, refresh on success, keep the error text on failure; the promise resolves
  either way.
\<close>

definition control_then_refresh ::
  "Backend \<Rightarrow> (api_error + unit) \<Rightarrow> api_call \<Rightarrow> ServiceState
     \<Rightarrow> (api_error + unit) \<times> ServiceState \<times> api_call list" where
  "control_then_refresh api answer call state =
     (case answer of
        Inl e \<Rightarrow> (Inr (), state\<lparr>error := Some (String_of_error e)\<rparr>, [call])
      | Inr _ \<Rightarrow> (let (state', calls) = fetchServices api state
                   in (Inr (), state', call # calls)))"

definition startService ::
  "Backend \<Rightarrow> string \<Rightarrow> ServiceState \<Rightarrow> (api_error + unit) \<times> ServiceState \<times> api_call list" where
  "startService api serviceId state =
     control_then_refresh api (startService_api api serviceId) (StartService serviceId) state"

definition stopService ::
  "Backend \<Rightarrow> string \<Rightarrow> ServiceState \<Rightarrow> (api_error + unit) \<times> ServiceState \<times> api_call list" where
  "stopService api serviceId state =
     control_then_refresh api (stopService_api api serviceId) (StopService serviceId) state"

definition restartService ::
  "Backend \<Rightarrow> string \<Rightarrow> ServiceState \<Rightarrow> (api_error + unit) \<times> ServiceState \<times> api_call list" where
  "restartService api serviceId state =
     control_then_refresh api (restartService_api api serviceId) (RestartService serviceId) state"

text \<open>
  \<open>killService\<close> looks the service up in the store and kills its process only when
  \<open>service?.pid\<close> is truthy: the service exists, its pid is not null and not 0.
\<close>

definition killService ::
  "Backend \<Rightarrow> string \<Rightarrow> ServiceState \<Rightarrow> (api_error + unit) \<times> ServiceState \<times> api_call list" where
  "killService api serviceId state =
     (case find (\<lambda>s. id_svc s = serviceId) (services state) of
        None \<Rightarrow> (Inr (), state, [])
      | Some service \<Rightarrow>
          (case pid service of
             None \<Rightarrow> (Inr (), state, [])
           | Some p \<Rightarrow>
               if p = 0 then (Inr (), state, [])
               else control_then_refresh api (killProcess api p) (KillProcess p) state))"

text \<open>
  \<open>toggleAutostart\<close> reports a missing service in the store's error field and returns;
  a backend failure is stored and thrown again.
\<close>

definition toggleAutostart ::
  "Backend \<Rightarrow> string \<Rightarrow> bool \<Rightarrow> ServiceState
     \<Rightarrow> (api_error + unit) \<times> ServiceState \<times> api_call list" where
  "toggleAutostart api serviceId enable state =
     (case find (\<lambda>s. id_svc s = serviceId) (services state) of
        None \<Rightarrow> (Inr (), state\<lparr>error := Some ''Service nicht gefunden''\<rparr>, [])
      | Some service \<Rightarrow>
          (let call = (if enable then EnableServiceAutostart serviceId (service_type service)
                       else DisableServiceAutostart serviceId (service_type service));
               answer = (if enable then enableServiceAutostart api serviceId (service_type service)
                         else disableServiceAutostart api serviceId (service_type service))
           in case answer of
                Inl e \<Rightarrow> (Inl e, state\<lparr>error := Some (String_of_error e)\<rparr>, [call])
              | Inr _ \<Rightarrow> (let (state', calls) = fetchServices api state
                           in (Inr (), state', call # calls))))"

section \<open>The port store (stores/portStore.ts)\<close>

datatype Protocol = Tcp | Udp

datatype PortStatus = Occupied | Free

record PortInfo =
  port :: nat
  protocol :: Protocol
  port_status :: PortStatus
  process_name :: "string option"
  port_pid :: "nat option"

record PortState =
  ports_ps :: "PortInfo list"
  isLoading_ps :: bool
  error_ps :: "string option"

definition usePortStore_initial :: PortState where
  "usePortStore_initial = \<lparr>ports_ps = [], isLoading_ps = False, error_ps = None\<rparr>"

text \<open>
  The store's \<open>findFreePorts\<close> awaits the backend command; when that rejects, the
  \<open>catch\<close> block writes the error text into the store and returns the empty array, so
  the promise the caller awaits always resolves.
\<close>

definition findFreePorts ::
  "(nat \<Rightarrow> api_error + nat list) \<Rightarrow> nat \<Rightarrow> PortState \<Rightarrow> (api_error + nat list) \<times> PortState" where
  "findFreePorts api_findFreePorts count state =
     (case api_findFreePorts count of
        Inr found \<Rightarrow> (Inr found, state)
      | Inl e \<Rightarrow> (Inr [], state\<lparr>error_ps := Some (String_of_error e)\<rparr>))"

text \<open>
  Modelled from the spec: the backend command \<open>find_free_ports\<close> that
  \<open>api.findFreePorts\<close> invokes is not among the sources. The spec's words: the query
  scans upward from the first non-well-known port (1024) and returns the first \<open>count\<close>
  ports absent from the occupied set; it fails with \<open>ExhaustedRange\<close> if the scan reaches
  the maximum port value (65535) before satisfying \<open>count\<close>.
\<close>

function scan_free :: "nat set \<Rightarrow> nat \<Rightarrow> nat \<Rightarrow> api_error + nat list" where
  "scan_free occupied p count =
     (if count = 0 then Inr []
      else if 65535 \<le> p then Inl ExhaustedRange
      else if p \<in> occupied then scan_free occupied (Suc p) count
      else (case scan_free occupied (Suc p) (count - 1) of
              Inl e \<Rightarrow> Inl e
            | Inr found \<Rightarrow> Inr (p # found)))"
  by pat_completeness auto
termination
  by (relation "measure (\<lambda>(occupied, p, count). 65535 - p)") auto

declare scan_free.simps [simp del]

definition find_free_ports :: "nat set \<Rightarrow> nat \<Rightarrow> api_error + nat list" where
  "find_free_ports occupied count = scan_free occupied 1024 count"

section \<open>Resource history (pages/Performance.tsx)\<close>

record CpuStats =
  cpu_usage_percent :: real
  core_count :: nat
  per_core_usage :: "real list"
  frequency_mhz :: "real option"

record MemoryStats =
  total_bytes :: nat
  used_bytes :: nat
  available_bytes :: nat
  memory_usage_percent :: real
  swap_total_bytes :: nat
  swap_used_bytes :: nat

record GpuStats =
  gpu_name :: string
  gpu_usage_percent :: "real option"
  memory_used_bytes :: "nat option"
  memory_total_bytes :: "nat option"
  temperature_celsius :: "real option"
  power_watts :: "real option"

record SystemStats =
  cpu :: CpuStats
  memory :: MemoryStats
  gpus :: "GpuStats list"
  timestamp :: nat

record StatsHistory =
  timestamps :: "nat list"
  cpuUsage :: "real list"
  memoryUsage :: "real list"
  gpuUsage :: "real list"

definition MAX_HISTORY_POINTS :: nat where
  "MAX_HISTORY_POINTS = 360"

text \<open>
  \<open>xs.slice(-n)\<close>: the last \<open>n\<close> elements, all of \<open>xs\<close> when it has fewer; \<open>slice(-0)\<close>
  is \<open>slice(0)\<close>, the whole array.
\<close>

definition slice_last :: "nat \<Rightarrow> 'a list \<Rightarrow> 'a list" where
  "slice_last n xs = (if n = 0 then xs else drop (length xs - n) xs)"

text \<open>\<open>newStats.gpus[0]?.usage_percent ?? 0\<close>\<close>

definition first_gpu_usage :: "SystemStats \<Rightarrow> real" where
  "first_gpu_usage newStats =
     (case gpus newStats of
        [] \<Rightarrow> 0
      | g # _ \<Rightarrow> (case gpu_usage_percent g of None \<Rightarrow> 0 | Some u \<Rightarrow> u))"

definition push_history :: "SystemStats \<Rightarrow> StatsHistory \<Rightarrow> StatsHistory" where
  "push_history newStats prev =
     (let newTimestamps = timestamps prev @ [timestamp newStats];
          newCpuUsage = cpuUsage prev @ [cpu_usage_percent (cpu newStats)];
          newMemoryUsage = memoryUsage prev @ [memory_usage_percent (memory newStats)];
          newGpuUsage = gpuUsage prev @ [first_gpu_usage newStats]
      in \<lparr>timestamps = slice_last MAX_HISTORY_POINTS newTimestamps,
          cpuUsage = slice_last MAX_HISTORY_POINTS newCpuUsage,
          memoryUsage = slice_last MAX_HISTORY_POINTS newMemoryUsage,
          gpuUsage = slice_last MAX_HISTORY_POINTS newGpuUsage\<rparr>)"

record PerformanceState =
  stats :: "SystemStats option"
  history :: StatsHistory
  error_perf :: "string option"

definition Performance_initial :: PerformanceState where
  "Performance_initial =
     \<lparr>stats = None,
      history = \<lparr>timestamps = [], cpuUsage = [], memoryUsage = [], gpuUsage = []\<rparr>,
      error_perf = None\<rparr>"

text \<open>One tick of the sampler: \<open>fetchStats\<close> with the backend's answer to \<open>getSystemStats\<close>.\<close>

definition fetchStats :: "api_error + SystemStats \<Rightarrow> PerformanceState \<Rightarrow> PerformanceState" where
  "fetchStats answer state =
     (case answer of
        Inr newStats \<Rightarrow>
          state\<lparr>stats := Some newStats, error_perf := None,
                history := push_history newStats (history state)\<rparr>
      | Inl err \<Rightarrow> state\<lparr>error_perf := Some (String_of_error err)\<rparr>)"

definition run_ticks :: "PerformanceState \<Rightarrow> (api_error + SystemStats) list \<Rightarrow> PerformanceState" where
  "run_ticks state answers = foldl (\<lambda>st answer. fetchStats answer st) state answers"

text \<open>A run of the sampler in which every tick succeeds, from the page's initial state.\<close>

definition successful_ticks :: "SystemStats list \<Rightarrow> PerformanceState" where
  "successful_ticks samples = run_ticks Performance_initial (map Inr samples)"

section \<open>Recommendation request (lib/tauri/commands.ts)\<close>

datatype json =
    JNull
  | JBool bool
  | JNumber nat
  | JString string
  | JArray "json list"
  | JObject "(string \<times> json) list"

fun ServiceType_string :: "ServiceType \<Rightarrow> string" where
  "ServiceType_string Docker = ''docker''"
| "ServiceType_string Systemd = ''systemd''"
| "ServiceType_string Launchd = ''launchd''"
| "ServiceType_string WindowsService = ''windows_service''"
| "ServiceType_string Process = ''process''"

text \<open>The object literal built for each service, keys in the order they are written.\<close>

definition recommendation_entry :: "Service \<Rightarrow> (string \<times> json) list" where
  "recommendation_entry s =
     [(''id'', JString (id_svc s)),
      (''name'', JString (name s)),
      (''status'', JString (status s)),
      (''type'', JString (ServiceType_string (service_type s))),
      (''ports'', JArray (map JNumber (ports s))),
      (''auto_start'', JBool (auto_start s))]"

definition recommendation_payload :: "Service list \<Rightarrow> (string \<times> json) list list" where
  "recommendation_payload svcs = map recommendation_entry (take 50 svcs)"

text \<open>
  \<open>invoke(command, args)\<close>: the command name and its named arguments. \<open>JSON.stringify\<close>
  is the platform's serialiser and is a parameter.
\<close>

datatype invoke_request = Invoke string "(string \<times> json) list"

definition getServiceRecommendations :: "(json \<Rightarrow> string) \<Rightarrow> Service list \<Rightarrow> invoke_request" where
  "getServiceRecommendations stringify svcs =
     (let servicesJson = stringify (JArray (map JObject (recommendation_payload svcs)))
      in Invoke ''get_service_recommendations'' [(''servicesJson'', JString servicesJson)])"

section \<open>Security scan results\<close>

datatype SecuritySeverity = Critical | High | Medium | Low | Info

datatype SecurityCategory =
    UnencryptedConnection | PublicExposure | DefaultCredentials | OutdatedSoftware
  | MissingAuthentication | InsecureConfiguration | PrivilegeEscalation | DataLeakage

record SecurityIssue =
  issue_id :: string
  issue_service_id :: "string option"
  issue_service_name :: "string option"
  category :: SecurityCategory
  severity :: SecuritySeverity
  title :: string
  issue_description :: string
  recommendation :: string
  issue_port :: "nat option"
  details :: "string option"

record SecurityScanResult =
  issues :: "SecurityIssue list"
  scan_timestamp :: nat
  services_scanned :: nat
  ports_scanned :: nat
  critical_count :: nat
  high_count :: nat
  medium_count :: nat
  low_count :: nat

text \<open>
  Modelled from the spec: the backend command \<open>scan_security\<close> that builds a
  \<open>SecurityScanResult\<close> is not among the sources (only the type and its readers are).
  The spec's words: aggregate counts are derived, not stored independently, from the
  issues of the same result. The result is assembled in one pass over the issues that
  bumps the counter of each issue's severity; \<open>info\<close> issues have no counter.
\<close>

fun tally_severity :: "SecurityIssue list \<Rightarrow> nat \<times> nat \<times> nat \<times> nat \<Rightarrow> nat \<times> nat \<times> nat \<times> nat" where
  "tally_severity [] acc = acc"
| "tally_severity (i # rest) (c, h, m, l) =
     tally_severity rest
       (case severity i of
          Critical \<Rightarrow> (c + 1, h, m, l)
        | High \<Rightarrow> (c, h + 1, m, l)
        | Medium \<Rightarrow> (c, h, m + 1, l)
        | Low \<Rightarrow> (c, h, m, l + 1)
        | Info \<Rightarrow> (c, h, m, l))"

definition scan_result :: "SecurityIssue list \<Rightarrow> nat \<Rightarrow> nat \<Rightarrow> nat \<Rightarrow> SecurityScanResult" where
  "scan_result found now n_services n_ports =
     (case tally_severity found (0, 0, 0, 0) of
        (c, h, m, l) \<Rightarrow>
          \<lparr>issues = found, scan_timestamp = now, services_scanned = n_services,
           ports_scanned = n_ports, critical_count = c, high_count = h,
           medium_count = m, low_count = l\<rparr>)"

definition count_severity :: "SecuritySeverity \<Rightarrow> SecurityIssue list \<Rightarrow> nat" where
  "count_severity x found = length (filter (\<lambda>i. severity i = x) found)"

text \<open>
  The Security page splits the issues of the current scan result,
  if there is one, into two groups; \<open>scanResult?.issues.filter(...) || []\<close> is the empty
  list while no result has arrived.
\<close>

definition criticalAndHigh :: "SecurityScanResult option \<Rightarrow> SecurityIssue list" where
  "criticalAndHigh scanResult =
     (case scanResult of
        None \<Rightarrow> []
      | Some r \<Rightarrow> filter (\<lambda>i. severity i = Critical \<or> severity i = High) (issues r))"

definition mediumAndLow :: "SecurityScanResult option \<Rightarrow> SecurityIssue list" where
  "mediumAndLow scanResult =
     (case scanResult of
        None \<Rightarrow> []
      | Some r \<Rightarrow>
          filter (\<lambda>i. severity i = Medium \<or> severity i = Low \<or> severity i = Info) (issues r))"

section \<open>Sample data\<close>

definition sample_service :: "string \<Rightarrow> Service" where
  "sample_service i =
     \<lparr>id_svc = i, name = i, status = ''running'', service_type = Docker, ports = [8080],
      pid = Some 4321, path = None, description = None, auto_start = False,
      cpu_usage = None, memory_bytes = None, memory_percent = None\<rparr>"

definition sample_store :: ServiceState where
  "sample_store =
     useServiceStore_initial
       \<lparr>services := [sample_service ''web'', sample_service ''db''],
        selectedService := Some (sample_service ''web'')\<rparr>"

definition sample_issue :: "string \<Rightarrow> SecuritySeverity \<Rightarrow> SecurityIssue" where
  "sample_issue i sev =
     \<lparr>issue_id = i, issue_service_id = None, issue_service_name = None,
      category = PublicExposure, severity = sev, title = i, issue_description = [],
      recommendation = [], issue_port = Some 5432, details = None\<rparr>"

definition sample_scan :: SecurityScanResult where
  "sample_scan =
     \<lparr>issues = [sample_issue ''a'' High, sample_issue ''b'' Info, sample_issue ''c'' Critical],
      scan_timestamp = 0, services_scanned = 2, ports_scanned = 3,
      critical_count = 1, high_count = 1, medium_count = 0, low_count = 0\<rparr>"

definition sample_stats :: "nat \<Rightarrow> SystemStats" where
  "sample_stats t =
     \<lparr>cpu = \<lparr>cpu_usage_percent = real t, core_count = 8, per_core_usage = [],
             frequency_mhz = None\<rparr>,
      memory = \<lparr>total_bytes = 1024, used_bytes = 512, available_bytes = 512,
                memory_usage_percent = 50, swap_total_bytes = 0, swap_used_bytes = 0\<rparr>,
      gpus = [], timestamp = t\<rparr>"

section \<open>Replaying additions against a full resync\<close>

lemma services_apply_added:
  "services (apply_events state (map ServiceAdded S)) = services state @ S"
  by (induction S arbitrary: state) (simp_all add: apply_events_def apply_event_def)

text \<open>
  C1. Starting from a store without services, handling one \<open>ServiceAdded\<close> event per
  element of a list \<open>S\<close> of services with pairwise distinct ids, in list order, leaves the
  same services (same ids, same fields, same order) as handling the single
  \<open>ServicesDiscovered\<close> event that carries \<open>S\<close>.
\<close>

theorem added_replay_matches_discovered:
  assumes "services state = []" and "distinct (map id_svc S)"
  shows "services (apply_events state (map ServiceAdded S))
           = services (apply_event state (ServicesDiscovered S))
         \<and> set (service_ids (apply_events state (map ServiceAdded S)))
           = set (service_ids (apply_event state (ServicesDiscovered S)))"
proof -
  have "services (apply_events state (map ServiceAdded S)) = S"
    using assms(1) by (simp add: services_apply_added)
  moreover have "services (apply_event state (ServicesDiscovered S)) = S"
    by (simp add: apply_event_def)
  ultimately show ?thesis by (simp add: service_ids_def)
qed

theorem added_replay_matches_discovered_witness:
  "services (apply_events useServiceStore_initial
               (map ServiceAdded [sample_service ''web'', sample_service ''db'']))
     = services (apply_event useServiceStore_initial
                   (ServicesDiscovered [sample_service ''web'', sample_service ''db'']))
   \<and> set (service_ids (apply_events useServiceStore_initial
               (map ServiceAdded [sample_service ''web'', sample_service ''db''])))
     = set (service_ids (apply_event useServiceStore_initial
                   (ServicesDiscovered [sample_service ''web'', sample_service ''db''])))"
proof -
  have empty: "services useServiceStore_initial = []"
    by (simp add: useServiceStore_initial_def)
  have ids: "distinct (map id_svc [sample_service ''web'', sample_service ''db''])"
    by (simp add: sample_service_def)
  show ?thesis
    by (rule added_replay_matches_discovered [OF empty ids])
qed

section \<open>Uniqueness of ids under events\<close>

lemma ids_map_status:
  "map id_svc (map (\<lambda>s. if id_svc s = i then s\<lparr>status := v\<rparr> else s) xs) = map id_svc xs"
  by (induction xs) simp_all

lemma ids_map_ports:
  "map id_svc (map (\<lambda>s. if id_svc s = i then s\<lparr>ports := v\<rparr> else s) xs) = map id_svc xs"
  by (induction xs) simp_all

text \<open>
  The \<open>ServiceAdded\<close> branch appends its payload without looking at the ids already in
  the store: adding a service whose id is present yields two entries with that id.
\<close>

theorem added_duplicate_id_counterexample:
  "distinct (service_ids (useServiceStore_initial\<lparr>services := [sample_service ''web'']\<rparr>))
   \<and> \<not> distinct (service_ids
         (apply_event (useServiceStore_initial\<lparr>services := [sample_service ''web'']\<rparr>)
            (ServiceAdded (sample_service ''web''))))"
  by (simp add: service_ids_def apply_event_def)

text \<open>
  C2 (amended). If the ids in the store are pairwise distinct, and the event is a
  \<open>ServicesDiscovered\<close> whose payload has pairwise distinct ids, a \<open>ServiceAdded\<close> whose
  payload's id is not yet in the store, or any \<open>ServiceStatusChanged\<close>, \<open>ServiceRemoved\<close>
  or \<open>ServicePortsChanged\<close>, then the ids in the store after the handler ran are again
  pairwise distinct.
\<close>

theorem event_preserves_distinct_ids:
  assumes "distinct (service_ids state)" and "event_respects_ids state event"
  shows "distinct (service_ids (apply_event state event))"
proof (cases event)
  case (ServicesDiscovered payload)
  with assms(2) show ?thesis by (simp add: service_ids_def apply_event_def)
next
  case (ServiceStatusChanged i old new)
  with assms(1) show ?thesis
    by (simp add: service_ids_def apply_event_def ids_map_status del: map_map)
next
  case (ServiceAdded payload)
  with assms show ?thesis by (simp add: service_ids_def apply_event_def)
next
  case (ServiceRemoved i)
  with assms(1) show ?thesis
    by (simp add: service_ids_def apply_event_def distinct_map_filter)
next
  case (ServicePortsChanged i ps)
  with assms(1) show ?thesis
    by (simp add: service_ids_def apply_event_def ids_map_ports del: map_map)
qed

theorem event_preserves_distinct_ids_witness:
  "distinct (service_ids
     (apply_event (useServiceStore_initial\<lparr>services := [sample_service ''web'']\<rparr>)
        (ServiceAdded (sample_service ''db''))))"
proof -
  have d: "distinct (service_ids (useServiceStore_initial\<lparr>services := [sample_service ''web'']\<rparr>))"
    by (simp add: service_ids_def sample_service_def)
  have r: "event_respects_ids (useServiceStore_initial\<lparr>services := [sample_service ''web'']\<rparr>)
             (ServiceAdded (sample_service ''db''))"
    by (simp add: service_ids_def sample_service_def)
  show ?thesis by (rule event_preserves_distinct_ids [OF d r])
qed

section \<open>Free ports\<close>

lemma scan_free_Inr:
  "scan_free occupied p count = Inr found \<Longrightarrow>
     length found = count \<and> sorted_wrt (<) found
     \<and> (\<forall>q \<in> set found. p \<le> q \<and> q < 65535 \<and> q \<notin> occupied)"
proof (induction occupied p count arbitrary: found rule: scan_free.induct)
  case (1 occupied p count)
  show ?case
  proof (cases "count = 0")
    case True
    with "1.prems" show ?thesis by (simp add: scan_free.simps)
  next
    case nz: False
    show ?thesis
    proof (cases "65535 \<le> p")
      case True
      with nz "1.prems" show ?thesis by (simp add: scan_free.simps)
    next
      case inrange: False
      show ?thesis
      proof (cases "p \<in> occupied")
        case True
        with nz inrange "1.prems" have "scan_free occupied (Suc p) count = Inr found"
          by (simp add: scan_free.simps [of occupied p count])
        from "1.IH"(1) [OF nz inrange True this] show ?thesis by auto
      next
        case False
        with nz inrange "1.prems" obtain rest where
          rest: "scan_free occupied (Suc p) (count - 1) = Inr rest" and found: "found = p # rest"
          by (auto simp: scan_free.simps [of occupied p count] split: sum.splits)
        from "1.IH"(2) [OF nz inrange False rest]
        have "length rest = count - 1" "sorted_wrt (<) rest"
          "\<forall>q \<in> set rest. Suc p \<le> q \<and> q < 65535 \<and> q \<notin> occupied" by auto
        with nz inrange False found show ?thesis by auto
      qed
    qed
  qed
qed

lemma scan_free_Inl:
  "scan_free occupied p count = Inl e \<Longrightarrow> e = ExhaustedRange"
proof (induction occupied p count rule: scan_free.induct)
  case (1 occupied p count)
  then show ?case
    by (subst (asm) (3) scan_free.simps) (auto split: if_splits sum.splits)
qed

lemma find_free_ports_all_occupied:
  assumes "{1024..<65535} \<subseteq> occupied" and "0 < count"
  shows "find_free_ports occupied count = Inl ExhaustedRange"
proof (cases "find_free_ports occupied count")
  case (Inl e)
  then show ?thesis using scan_free_Inl [of occupied 1024 count e]
    by (simp add: find_free_ports_def)
next
  case (Inr found)
  then have "length found = count"
    and "\<forall>q \<in> set found. 1024 \<le> q \<and> q < 65535 \<and> q \<notin> occupied"
    using scan_free_Inr [of occupied 1024 count found] by (simp_all add: find_free_ports_def)
  with assms obtain q where "q \<in> set found" "1024 \<le> q" "q < 65535" "q \<notin> occupied"
    by (cases found) auto
  with assms(1) show ?thesis by auto
qed

text \<open>
  With every port from 1024 up occupied the search for one free port fails with
  \<open>ExhaustedRange\<close>, and the store hands its caller the empty list as a regular result:
  neither one port nor a failure.
\<close>

theorem findFreePorts_failure_counterexample:
  "find_free_ports {1024..<65535} 1 = Inl ExhaustedRange
   \<and> fst (findFreePorts (find_free_ports {1024..<65535}) 1 usePortStore_initial) = Inr []"
proof -
  have "find_free_ports {1024..<65535} 1 = Inl ExhaustedRange"
    by (rule find_free_ports_all_occupied) simp_all
  then show ?thesis by (simp add: findFreePorts_def)
qed

text \<open>
  C3 (amended). For every count \<open>n\<close> the store's \<open>findFreePorts(n)\<close> resolves. When the
  backend search succeeds, the caller receives its result, exactly \<open>n\<close> strictly ascending
  ports, all at least 1024 and none in the occupied set, and the store is unchanged. When
  the backend search fails, it fails with \<open>ExhaustedRange\<close>; the store records the error
  text in its error field and the caller receives the empty list.
\<close>

theorem findFreePorts_result:
  "(\<exists>found. findFreePorts (find_free_ports occupied) n state = (Inr found, state)
       \<and> find_free_ports occupied n = Inr found
       \<and> length found = n \<and> sorted_wrt (<) found
       \<and> (\<forall>q \<in> set found. 1024 \<le> q \<and> q \<notin> occupied))
   \<or> (find_free_ports occupied n = Inl ExhaustedRange
       \<and> findFreePorts (find_free_ports occupied) n state
           = (Inr [], state\<lparr>error_ps := Some ''ExhaustedRange''\<rparr>))"
proof (cases "find_free_ports occupied n")
  case (Inl e)
  then have "e = ExhaustedRange"
    using scan_free_Inl [of occupied 1024 n e] by (simp add: find_free_ports_def)
  with Inl show ?thesis by (simp add: findFreePorts_def)
next
  case (Inr found)
  then have "length found = n \<and> sorted_wrt (<) found
     \<and> (\<forall>q \<in> set found. 1024 \<le> q \<and> q < 65535 \<and> q \<notin> occupied)"
    using scan_free_Inr [of occupied 1024 n found] by (simp add: find_free_ports_def)
  with Inr show ?thesis by (simp add: findFreePorts_def)
qed

theorem findFreePorts_result_witness:
  "findFreePorts (find_free_ports {1024, 1026}) 2 usePortStore_initial
     = (Inr [1025, 1027], usePortStore_initial)"
proof -
  have ev: "find_free_ports {1024, 1026} 2 = Inr [1025, 1027]"
    by (simp add: find_free_ports_def scan_free.simps)
  show ?thesis
    using findFreePorts_result [of "{1024, 1026}" 2 usePortStore_initial] ev by simp
qed

section \<open>The history window\<close>

lemma slice_last_snoc:
  "0 < n \<Longrightarrow> slice_last n (slice_last n xs @ [x]) = slice_last n (xs @ [x])"
proof (cases "length xs < n")
  case True
  then show ?thesis by (simp add: slice_last_def)
next
  case False
  assume "0 < n"
  with False have "Suc (length xs) - n = Suc (length xs - n)" by simp
  with False \<open>0 < n\<close> show ?thesis by (simp add: slice_last_def)
qed

text \<open>
  Trimming after every tick is the same as trimming once at the end, as long as the
  series were within the window to begin with.
\<close>

lemma history_run_ticks:
  "history (run_ticks state (map Inr samples)) =
     \<lparr>timestamps = slice_last MAX_HISTORY_POINTS (timestamps (history state) @ map timestamp samples),
      cpuUsage = slice_last MAX_HISTORY_POINTS
                   (cpuUsage (history state) @ map (\<lambda>s. cpu_usage_percent (cpu s)) samples),
      memoryUsage = slice_last MAX_HISTORY_POINTS
                   (memoryUsage (history state) @ map (\<lambda>s. memory_usage_percent (memory s)) samples),
      gpuUsage = slice_last MAX_HISTORY_POINTS
                   (gpuUsage (history state) @ map first_gpu_usage samples)\<rparr>"
  if "length (timestamps (history state)) \<le> MAX_HISTORY_POINTS"
     "length (cpuUsage (history state)) \<le> MAX_HISTORY_POINTS"
     "length (memoryUsage (history state)) \<le> MAX_HISTORY_POINTS"
     "length (gpuUsage (history state)) \<le> MAX_HISTORY_POINTS"
  using that
proof (induction samples arbitrary: state rule: rev_induct)
  case Nil
  then show ?case by (simp add: run_ticks_def slice_last_def MAX_HISTORY_POINTS_def)
next
  case (snoc s samples)
  have step: "run_ticks state (map Inr (samples @ [s]))
                = fetchStats (Inr s) (run_ticks state (map Inr samples))"
    by (simp add: run_ticks_def)
  have pos: "0 < MAX_HISTORY_POINTS" by (simp add: MAX_HISTORY_POINTS_def)
  show ?case
    unfolding step
    by (simp add: fetchStats_def push_history_def snoc.IH [OF snoc.prems] slice_last_snoc [OF pos])
qed

text \<open>
  C4. After \<open>k\<close> successful sampler ticks each of the four history series (timestamps,
  cpuUsage, memoryUsage, gpuUsage) holds exactly \<open>min k 360\<close> points, namely the values of
  the last \<open>min k 360\<close> samples in arrival order; after 361 ticks each series holds the
  values of ticks 2 to 361, the sample of tick 1 being evicted.
\<close>

theorem history_window:
  "length (timestamps (history (successful_ticks samples))) = min (length samples) 360
   \<and> length (cpuUsage (history (successful_ticks samples))) = min (length samples) 360
   \<and> length (memoryUsage (history (successful_ticks samples))) = min (length samples) 360
   \<and> length (gpuUsage (history (successful_ticks samples))) = min (length samples) 360
   \<and> timestamps (history (successful_ticks samples))
       = map timestamp (drop (length samples - 360) samples)
   \<and> cpuUsage (history (successful_ticks samples))
       = map (\<lambda>s. cpu_usage_percent (cpu s)) (drop (length samples - 360) samples)
   \<and> memoryUsage (history (successful_ticks samples))
       = map (\<lambda>s. memory_usage_percent (memory s)) (drop (length samples - 360) samples)
   \<and> gpuUsage (history (successful_ticks samples))
       = map first_gpu_usage (drop (length samples - 360) samples)
   \<and> (length samples = 361 \<longrightarrow>
        timestamps (history (successful_ticks samples)) = map timestamp (tl samples)
      \<and> cpuUsage (history (successful_ticks samples))
          = map (\<lambda>s. cpu_usage_percent (cpu s)) (tl samples)
      \<and> memoryUsage (history (successful_ticks samples))
          = map (\<lambda>s. memory_usage_percent (memory s)) (tl samples)
      \<and> gpuUsage (history (successful_ticks samples)) = map first_gpu_usage (tl samples))"
proof -
  have h: "history (successful_ticks samples) =
     \<lparr>timestamps = map timestamp (drop (length samples - 360) samples),
      cpuUsage = map (\<lambda>s. cpu_usage_percent (cpu s)) (drop (length samples - 360) samples),
      memoryUsage = map (\<lambda>s. memory_usage_percent (memory s)) (drop (length samples - 360) samples),
      gpuUsage = map first_gpu_usage (drop (length samples - 360) samples)\<rparr>"
    unfolding successful_ticks_def
    by (subst history_run_ticks)
       (simp_all add: Performance_initial_def slice_last_def MAX_HISTORY_POINTS_def drop_map)
  have one: "length samples = 361 \<Longrightarrow> drop (length samples - 360) samples = tl samples"
    by (simp add: drop_Suc)
  show ?thesis
    unfolding h using one by auto
qed

theorem history_window_witness:
  "length (map sample_stats [1..<362]) = 361
   \<and> timestamps (history (successful_ticks (map sample_stats [1..<362])))
       = map timestamp (tl (map sample_stats [1..<362]))
   \<and> cpuUsage (history (successful_ticks (map sample_stats [1..<362])))
       = map (\<lambda>s. cpu_usage_percent (cpu s)) (tl (map sample_stats [1..<362]))
   \<and> memoryUsage (history (successful_ticks (map sample_stats [1..<362])))
       = map (\<lambda>s. memory_usage_percent (memory s)) (tl (map sample_stats [1..<362]))
   \<and> gpuUsage (history (successful_ticks (map sample_stats [1..<362])))
       = map first_gpu_usage (tl (map sample_stats [1..<362]))"
proof -
  have len: "length (map sample_stats [1..<362]) = 361"
    by (simp del: upt_rec_numeral)
  show ?thesis
    using history_window [of "map sample_stats [1..<362]"] len by blast
qed

section \<open>Frame of the single-service events\<close>

text \<open>
  C5. Handling a \<open>ServiceStatusChanged\<close> event keeps the list of services position by
  position: a service whose id differs from the event's \<open>service_id\<close> is unchanged, a
  service whose id matches differs from its old value in the status field only, which is
  the event's \<open>new_status\<close>; nothing else in the store changes.
\<close>

theorem status_changed_frame:
  "length (services (apply_event state (ServiceStatusChanged service_id old_status new_status)))
     = length (services state)
   \<and> (\<forall>i < length (services state).
        (id_svc (services state ! i) \<noteq> service_id \<longrightarrow>
           services (apply_event state (ServiceStatusChanged service_id old_status new_status)) ! i
             = services state ! i)
      \<and> (id_svc (services state ! i) = service_id \<longrightarrow>
           services (apply_event state (ServiceStatusChanged service_id old_status new_status)) ! i
             = (services state ! i)\<lparr>status := new_status\<rparr>))
   \<and> apply_event state (ServiceStatusChanged service_id old_status new_status)
       = state\<lparr>services :=
           services (apply_event state (ServiceStatusChanged service_id old_status new_status))\<rparr>"
  by (simp add: apply_event_def)

theorem status_changed_frame_witness:
  "services (apply_event sample_store (ServiceStatusChanged ''web'' ''running'' ''stopped'')) ! 0
     = (sample_service ''web'')\<lparr>status := ''stopped''\<rparr>
   \<and> services (apply_event sample_store (ServiceStatusChanged ''web'' ''running'' ''stopped'')) ! 1
     = sample_service ''db''"
  using status_changed_frame [of sample_store "''web''" "''running''" "''stopped''"]
  by (simp add: sample_store_def sample_service_def)

text \<open>
  C8. Handling a \<open>ServiceRemoved\<close> event leaves no service with the removed id in the
  store and keeps every other service as it was, in order; \<open>selectedService\<close> becomes null
  exactly when a service was selected and its id is the removed one, and is unchanged
  otherwise.
\<close>

theorem removed_frame:
  "service_id \<notin> set (service_ids (apply_event state (ServiceRemoved service_id)))
   \<and> services (apply_event state (ServiceRemoved service_id))
       = filter (\<lambda>s. id_svc s \<noteq> service_id) (services state)
   \<and> (\<forall>s \<in> set (services state).
         id_svc s \<noteq> service_id \<longrightarrow> s \<in> set (services (apply_event state (ServiceRemoved service_id))))
   \<and> set (services (apply_event state (ServiceRemoved service_id))) \<subseteq> set (services state)
   \<and> selectedService (apply_event state (ServiceRemoved service_id))
       = (if \<exists>sel. selectedService state = Some sel \<and> id_svc sel = service_id
          then None else selectedService state)
   \<and> isLoading (apply_event state (ServiceRemoved service_id)) = isLoading state
   \<and> error (apply_event state (ServiceRemoved service_id)) = error state"
  by (auto simp: apply_event_def service_ids_def split: option.splits)

theorem removed_frame_witness:
  "services (apply_event sample_store (ServiceRemoved ''web'')) = [sample_service ''db'']
   \<and> selectedService (apply_event sample_store (ServiceRemoved ''web'')) = None
   \<and> selectedService (apply_event sample_store (ServiceRemoved ''db'')) = Some (sample_service ''web'')"
  using removed_frame [of "''web''" sample_store] removed_frame [of "''db''" sample_store]
  by (simp add: sample_store_def sample_service_def)

section \<open>The recommendation request\<close>

text \<open>
  C9. The request \<open>getServiceRecommendations\<close> sends serialises one object per service
  for the first 50 services of its argument only, in their order; each object has
  exactly the keys id, name, status, type, ports and auto_start, with the service's
  values.
\<close>

theorem recommendations_request:
  "getServiceRecommendations stringify svcs
     = Invoke ''get_service_recommendations''
         [(''servicesJson'', JString (stringify (JArray (map JObject (recommendation_payload svcs)))))]
   \<and> length (recommendation_payload svcs) = min (length svcs) 50
   \<and> (\<forall>i < length (recommendation_payload svcs).
         map fst (recommendation_payload svcs ! i)
           = [''id'', ''name'', ''status'', ''type'', ''ports'', ''auto_start'']
       \<and> map snd (recommendation_payload svcs ! i)
           = [JString (id_svc (svcs ! i)), JString (name (svcs ! i)), JString (status (svcs ! i)),
              JString (ServiceType_string (service_type (svcs ! i))),
              JArray (map JNumber (ports (svcs ! i))), JBool (auto_start (svcs ! i))])"
  by (simp add: getServiceRecommendations_def recommendation_payload_def recommendation_entry_def)

theorem recommendations_request_witness:
  "length (recommendation_payload (replicate 60 (sample_service ''web''))) = 50
   \<and> map fst (recommendation_payload (replicate 60 (sample_service ''web'')) ! 49)
       = [''id'', ''name'', ''status'', ''type'', ''ports'', ''auto_start'']"
proof -
  have "(49::nat) < length (recommendation_payload (replicate 60 (sample_service ''web'')))"
    by (simp add: recommendation_payload_def)
  then show ?thesis
    using recommendations_request [of "\<lambda>_. []" "replicate 60 (sample_service ''web'')"]
    by simp
qed

section \<open>Severity counts\<close>

lemma tally_severity_counts:
  "tally_severity found (c, h, m, l) =
     (c + count_severity Critical found, h + count_severity High found,
      m + count_severity Medium found, l + count_severity Low found)"
  by (induction found arbitrary: c h m l)
     (simp_all add: count_severity_def split: SecuritySeverity.splits)

text \<open>
  C7. In every scan result the fields \<open>critical_count\<close>, \<open>high_count\<close>, \<open>medium_count\<close>
  and \<open>low_count\<close> equal the number of issues of the same result whose severity is
  critical, high, medium and low.
\<close>

theorem scan_result_counts:
  "critical_count (scan_result found now n_services n_ports)
     = count_severity Critical (issues (scan_result found now n_services n_ports))
   \<and> high_count (scan_result found now n_services n_ports)
     = count_severity High (issues (scan_result found now n_services n_ports))
   \<and> medium_count (scan_result found now n_services n_ports)
     = count_severity Medium (issues (scan_result found now n_services n_ports))
   \<and> low_count (scan_result found now n_services n_ports)
     = count_severity Low (issues (scan_result found now n_services n_ports))"
  by (simp add: scan_result_def tally_severity_counts)

section \<open>Control operations on a missing service\<close>

text \<open>
  C6. \<open>killService\<close> with an id that is not in the store returns normally, issues no
  backend command and leaves the store, its error field included, as it was: the missing
  service is reported nowhere. \<open>toggleAutostart\<close> with the same id writes
  \<open>Service nicht gefunden\<close> into the error field.
\<close>

theorem killService_missing_id_unreported:
  "killService api ''ghost'' sample_store = (Inr (), sample_store, [])
   \<and> error sample_store = None
   \<and> ''ghost'' \<notin> set (service_ids sample_store)
   \<and> toggleAutostart api ''ghost'' enable sample_store
       = (Inr (), sample_store\<lparr>error := Some ''Service nicht gefunden''\<rparr>, [])"
  by (simp add: killService_def toggleAutostart_def sample_store_def sample_service_def
        service_ids_def useServiceStore_initial_def)

section \<open>The two issue groups of the Security page\<close>

lemma other_group_is_complement:
  "(severity i = Medium \<or> severity i = Low \<or> severity i = Info)
     = (\<not> (severity i = Critical \<or> severity i = High))"
  by (cases "severity i") simp_all

text \<open>
  C10. For a scan result shown by the Security page, an issue of the result is in the
  critical-and-high group exactly when its severity is critical or high, and in the
  medium-and-low group exactly when its severity is medium, low or info; every issue is
  in exactly one of the two groups, and the groups together hold as many entries as the
  result has issues.
\<close>

theorem issue_groups_partition:
  "(\<forall>i \<in> set (issues r).
       (i \<in> set (criticalAndHigh (Some r)) \<longleftrightarrow> severity i = Critical \<or> severity i = High)
     \<and> (i \<in> set (mediumAndLow (Some r))
          \<longleftrightarrow> severity i = Medium \<or> severity i = Low \<or> severity i = Info)
     \<and> (i \<in> set (criticalAndHigh (Some r)) \<longleftrightarrow> i \<notin> set (mediumAndLow (Some r))))
   \<and> set (criticalAndHigh (Some r)) \<union> set (mediumAndLow (Some r)) = set (issues r)
   \<and> set (criticalAndHigh (Some r)) \<inter> set (mediumAndLow (Some r)) = {}
   \<and> length (criticalAndHigh (Some r)) + length (mediumAndLow (Some r)) = length (issues r)"
proof -
  have ml: "mediumAndLow (Some r)
              = filter (\<lambda>i. \<not> (severity i = Critical \<or> severity i = High)) (issues r)"
    by (simp add: mediumAndLow_def other_group_is_complement)
  have ch: "criticalAndHigh (Some r)
              = filter (\<lambda>i. severity i = Critical \<or> severity i = High) (issues r)"
    by (simp add: criticalAndHigh_def)
  have len: "length (criticalAndHigh (Some r)) + length (mediumAndLow (Some r)) = length (issues r)"
    unfolding ml ch by (rule sum_length_filter_compl)
  have sets: "set (criticalAndHigh (Some r)) \<union> set (mediumAndLow (Some r)) = set (issues r)"
    "set (criticalAndHigh (Some r)) \<inter> set (mediumAndLow (Some r)) = {}"
    unfolding ml ch by auto
  have pointwise: "\<forall>i \<in> set (issues r).
       (i \<in> set (criticalAndHigh (Some r)) \<longleftrightarrow> severity i = Critical \<or> severity i = High)
     \<and> (i \<in> set (mediumAndLow (Some r))
          \<longleftrightarrow> severity i = Medium \<or> severity i = Low \<or> severity i = Info)
     \<and> (i \<in> set (criticalAndHigh (Some r)) \<longleftrightarrow> i \<notin> set (mediumAndLow (Some r)))"
    unfolding ml ch by (auto simp: other_group_is_complement)
  from pointwise sets len show ?thesis by blast
qed

theorem issue_groups_partition_witness:
  "criticalAndHigh (Some sample_scan) = [sample_issue ''a'' High, sample_issue ''c'' Critical]
   \<and> mediumAndLow (Some sample_scan) = [sample_issue ''b'' Info]"
  using issue_groups_partition [of sample_scan]
  by (simp add: criticalAndHigh_def mediumAndLow_def sample_scan_def sample_issue_def)

end
